theory Spec2Isabelle
  imports Main
begin

section \<open>The search page \<open>src/app/page.tsx\<close> (component \<open>MinecraftModsSearch\<close>)\<close>

text \<open>
  The component keeps eleven pieces of React state and one ref (the debounce timer). Its
  handlers are event handlers of a single-threaded event loop: each runs to completion (or
  to its first \<open>await\<close>) on the state of the last render. An \<open>async\<close> handler is split at
  its \<open>await\<close>: the part before it issues the request, the part after it runs when the
  response arrives. Timers and open requests are part of the modelled world, so that the
  order in which timers fire and responses arrive is an input of the model.

  Outside the model: the markup beyond the conditions under which a button is rendered or
  disabled; the clean-up on unmount (it clears the debounce timer, after which no event
  reaches the component); page numbers beyond the exact range of a JavaScript number. In
  the event loop a response body is either of the shape its interface declares or does
  not parse; for the suggestion flow the handler is given a second time on the raw JSON
  value of the body. The file holds a second page component, \<open>MinecraftModSearch\<close>, with its
  own state and handlers; the functions cited here (\<open>fetchSuggestions\<close>,
  \<open>handleInputChange\<close>, \<open>performSearch\<close>, \<open>handleSearch\<close>, \<open>loadMoreResults\<close>,
  \<open>fetchSummary\<close>) are those of \<open>MinecraftModsSearch\<close>.
\<close>

subsection \<open>Strings\<close>

text \<open>
  A JavaScript string is modelled as the list of its Unicode code points; a code point is
  a number below \<open>0x110000\<close> outside the surrogate range, so every well-formed string of
  the program has exactly one model and a string with a lone surrogate has none.
  \<open>UChar n\<close> is the character with code point \<open>n\<close>, and \<open>js\<close> turns a literal of ASCII
  characters into such a string.
\<close>

typedef uchar = "{n::nat. n < 0xD800 \<or> (0xE000 \<le> n \<and> n < 0x110000)}"
  morphisms code_point UChar
  by (rule exI [of _ 0]) simp

type_synonym jstring = "uchar list"

definition js :: "string \<Rightarrow> jstring" where
  "js s = map (\<lambda>c. UChar (of_char c)) s"

text \<open>
  \<open>String.prototype.trim\<close> removes white space and line terminators from both ends: the
  characters TAB, LF, VT, FF, CR, SP, NBSP, U+1680, U+2000 to U+200A, U+2028, U+2029,
  U+202F, U+205F, U+3000 and U+FEFF. \<open>!s.trim()\<close> is \<open>blank s\<close>.
\<close>

definition is_space :: "uchar \<Rightarrow> bool" where
  "is_space c = (code_point c \<in> set [0x09, 0x0A, 0x0B, 0x0C, 0x0D, 0x20, 0xA0, 0x1680,
      0x2000, 0x2001, 0x2002, 0x2003, 0x2004, 0x2005, 0x2006, 0x2007, 0x2008, 0x2009, 0x200A,
      0x2028, 0x2029, 0x202F, 0x205F, 0x3000, 0xFEFF])"

definition trim :: "jstring \<Rightarrow> jstring" where
  "trim s = rev (dropWhile is_space (rev (dropWhile is_space s)))"

definition blank :: "jstring \<Rightarrow> bool" where
  "blank s = (trim s = [])"

subsection \<open>Data\<close>

text \<open>\<open>interface ModResult\<close>; the field \<open>id\<close> is written \<open>id_m\<close>.\<close>

record ModResult =
  id_m :: int
  title :: jstring
  authors :: "jstring list"
  categories :: "jstring list"
  description :: jstring
  popularityRank :: nat
  websiteUrl :: jstring

text \<open>The three response bodies, as their interfaces declare them.\<close>

record SearchResponse =
  sr_query :: jstring
  sr_results :: "ModResult list"

record AutocompleteResponse =
  ac_query :: jstring
  ac_suggestions :: "jstring list"

record SummaryResponse =
  mod_id :: jstring
  sm_title :: jstring
  summary :: jstring

text \<open>
  What \<open>await fetch(url)\<close> followed by \<open>await response.json()\<close> can give: the fetch
  rejects (\<open>NetworkError\<close>), or a response with a status code arrives whose body either
  parses to the declared interface (\<open>Some\<close>) or makes \<open>json()\<close> reject (\<open>None\<close>).
  The source never reads the status code.
\<close>

datatype 'a outcome = NetworkError | Response nat "'a option"

text \<open>The requests the component sends, by the parameters it puts into the URL.\<close>

datatype request =
    SuggestReq jstring bool nat
  | SearchReq jstring nat nat
  | SummaryReq int

text \<open>
  The two timer callbacks of the source: the debounced \<open>() => fetchSuggestions(value)\<close>,
  which closes over the typed text and over the \<open>fetchSuggestions\<close> of the render that set
  the timer (hence over that render's \<open>useAdvancedAutocomplete\<close>), and the blur handler's
  \<open>() => setShowSuggestions(false)\<close>.
\<close>

datatype callback = SuggestLater jstring bool | HideSuggestions

record timer =
  tid :: nat
  due :: nat
  run_cb :: callback

record world =
  query :: jstring
  searchResults :: "ModResult list"
  suggestions :: "jstring list"
  showSuggestions :: bool
  isSearching :: bool
  currentPage :: nat
  hasMoreResults :: bool
  selectedSummary :: "SummaryResponse option"
  isLoadingSummary :: bool
  useAdvancedAutocomplete :: bool
  searchQuery :: jstring
  debounceTimer :: "nat option"
  clock :: nat
  nextTimer :: nat
  timers :: "timer list"
  fetches :: "request list"
  answered :: "nat list"
  console :: "string list"

text \<open>\<open>const [pageSize] = useState(10)\<close>: no setter exists.\<close>

definition pageSize :: nat where
  "pageSize = 10"

definition init :: world where
  "init = \<lparr> query = [], searchResults = [], suggestions = [], showSuggestions = False,
     isSearching = False, currentPage = 0, hasMoreResults = False, selectedSummary = None,
     isLoadingSummary = False, useAdvancedAutocomplete = False, searchQuery = [],
     debounceTimer = None, clock = 0, nextTimer = 1, timers = [], fetches = [],
     answered = [], console = [] \<rparr>"

subsection \<open>Timers and requests\<close>

definition setTimeout :: "callback \<Rightarrow> nat \<Rightarrow> world \<Rightarrow> nat \<times> world" where
  "setTimeout cb delay w =
     (nextTimer w,
      w\<lparr> timers := timers w @ [\<lparr> tid = nextTimer w, due = clock w + delay, run_cb = cb \<rparr>],
         nextTimer := Suc (nextTimer w) \<rparr>)"

definition clearTimeout :: "nat \<Rightarrow> world \<Rightarrow> world" where
  "clearTimeout i w = w\<lparr> timers := filter (\<lambda>t. tid t \<noteq> i) (timers w) \<rparr>"

definition fetch :: "request \<Rightarrow> world \<Rightarrow> world" where
  "fetch r w = w\<lparr> fetches := fetches w @ [r] \<rparr>"

definition console_error :: "string \<Rightarrow> world \<Rightarrow> world" where
  "console_error m w = w\<lparr> console := console w @ [m] \<rparr>"

text \<open>A request is open from the fetch that issued it until its outcome has been delivered.\<close>

definition pending :: "world \<Rightarrow> nat \<Rightarrow> bool" where
  "pending w r = (r < length (fetches w) \<and> r \<notin> set (answered w))"

subsection \<open>The handlers\<close>

text \<open>\<open>fetchSuggestions\<close> up to its \<open>await\<close>; \<open>adv\<close> is the captured \<open>useAdvancedAutocomplete\<close>.\<close>

definition fetchSuggestions :: "bool \<Rightarrow> jstring \<Rightarrow> world \<Rightarrow> world" where
  "fetchSuggestions adv searchTerm w =
     (if blank searchTerm then w\<lparr> suggestions := [], showSuggestions := False \<rparr>
      else fetch (SuggestReq searchTerm adv 5) w)"

text \<open>\<open>fetchSuggestions\<close> after its \<open>await\<close>s.\<close>

definition fetchSuggestions_resume :: "AutocompleteResponse outcome \<Rightarrow> world \<Rightarrow> world" where
  "fetchSuggestions_resume out w =
     (case out of
        Response status (Some data) \<Rightarrow>
          w\<lparr> suggestions := ac_suggestions data, showSuggestions := True \<rparr>
      | _ \<Rightarrow>
          (console_error ''Error fetching suggestions:'' w)
            \<lparr> suggestions := [], showSuggestions := False \<rparr>)"

definition handleInputChange :: "jstring \<Rightarrow> world \<Rightarrow> world" where
  "handleInputChange v w =
     (let w1 = w\<lparr> query := v \<rparr>;
          w2 = (case debounceTimer w1 of None \<Rightarrow> w1 | Some i \<Rightarrow> clearTimeout i w1);
          (i', w3) = setTimeout (SuggestLater v (useAdvancedAutocomplete w)) 1000 w2
      in w3\<lparr> debounceTimer := Some i' \<rparr>)"

text \<open>\<open>performSearch\<close> up to its \<open>await\<close>.\<close>

definition performSearch :: "jstring \<Rightarrow> nat \<Rightarrow> world \<Rightarrow> world" where
  "performSearch searchTerm page w =
     (if blank searchTerm then w
      else fetch (SearchReq searchTerm pageSize page)
             (w\<lparr> isSearching := True, showSuggestions := False, searchQuery := searchTerm \<rparr>))"

text \<open>\<open>performSearch\<close> after its \<open>await\<close>s, for the request of page \<open>page\<close> and size \<open>psize\<close>.\<close>

definition performSearch_resume :: "nat \<Rightarrow> nat \<Rightarrow> SearchResponse outcome \<Rightarrow> world \<Rightarrow> world" where
  "performSearch_resume psize page out w =
     (case out of
        Response status (Some data) \<Rightarrow>
          w\<lparr> searchResults :=
               (if page = 0 then sr_results data else searchResults w @ sr_results data),
             hasMoreResults := (length (sr_results data) = psize),
             currentPage := page,
             isSearching := False \<rparr>
      | _ \<Rightarrow>
          (console_error ''Error searching:'' w)
            \<lparr> searchResults := [], hasMoreResults := False, isSearching := False \<rparr>)"

text \<open>\<open>handleSearch(searchTerm?)\<close>: \<open>searchTerm || query\<close> takes \<open>query\<close> for a missing or empty argument.\<close>

definition handleSearch :: "jstring option \<Rightarrow> world \<Rightarrow> world" where
  "handleSearch searchTerm w =
     (let term = (case searchTerm of None \<Rightarrow> query w
                  | Some t \<Rightarrow> if t = [] then query w else t)
      in if \<not> blank term then performSearch term 0 w else w)"

definition handleSuggestionClick :: "jstring \<Rightarrow> world \<Rightarrow> world" where
  "handleSuggestionClick suggestion w =
     performSearch suggestion 0 (w\<lparr> query := suggestion, showSuggestions := False \<rparr>)"

definition loadMoreResults :: "world \<Rightarrow> world" where
  "loadMoreResults w =
     (if searchQuery w \<noteq> [] \<and> \<not> isSearching w
      then performSearch (searchQuery w) (currentPage w + 1) w else w)"

text \<open>\<open>fetchSummary\<close> up to its \<open>await\<close>, and after it.\<close>

definition fetchSummary :: "int \<Rightarrow> world \<Rightarrow> world" where
  "fetchSummary modId w = fetch (SummaryReq modId) (w\<lparr> isLoadingSummary := True \<rparr>)"

definition fetchSummary_resume :: "SummaryResponse outcome \<Rightarrow> world \<Rightarrow> world" where
  "fetchSummary_resume out w =
     (case out of
        Response status (Some data) \<Rightarrow>
          w\<lparr> selectedSummary := Some data, isLoadingSummary := False \<rparr>
      | _ \<Rightarrow>
          (console_error ''Error fetching summary:'' w)\<lparr> isLoadingSummary := False \<rparr>)"

definition handleKeyPress :: "jstring \<Rightarrow> world \<Rightarrow> world" where
  "handleKeyPress key w =
     (if key = (js ''Enter'') then handleSearch None w
      else if key = (js ''Escape'') then w\<lparr> showSuggestions := False \<rparr>
      else w)"

subsection \<open>The event loop\<close>

definition run_callback :: "callback \<Rightarrow> world \<Rightarrow> world" where
  "run_callback cb w =
     (case cb of
        SuggestLater v adv \<Rightarrow> fetchSuggestions adv v w
      | HideSuggestions \<Rightarrow> w\<lparr> showSuggestions := False \<rparr>)"

fun fire :: "timer list \<Rightarrow> world \<Rightarrow> world" where
  "fire [] w = w"
| "fire (t # ts) w = fire ts (run_callback (run_cb t) w)"

text \<open>
  Time passes: the timers that are due by then fire in the order of their due times (in
  the order they were set, for equal times); no callback of this component sets a timer.
\<close>

definition advance :: "nat \<Rightarrow> world \<Rightarrow> world" where
  "advance d w =
     (let now = clock w + d;
          ready = sort_key due (filter (\<lambda>t. due t \<le> now) (timers w))
      in fire ready (w\<lparr> clock := now, timers := filter (\<lambda>t. \<not> due t \<le> now) (timers w) \<rparr>))"

text \<open>Delivering the outcome of request \<open>r\<close>: nothing happens unless \<open>r\<close> is open and of that kind.\<close>

definition suggestionsArrive :: "nat \<Rightarrow> AutocompleteResponse outcome \<Rightarrow> world \<Rightarrow> world" where
  "suggestionsArrive r out w =
     (if pending w r
      then (case fetches w ! r of
              SuggestReq q adv n \<Rightarrow> fetchSuggestions_resume out (w\<lparr> answered := r # answered w \<rparr>)
            | _ \<Rightarrow> w)
      else w)"

definition searchArrives :: "nat \<Rightarrow> SearchResponse outcome \<Rightarrow> world \<Rightarrow> world" where
  "searchArrives r out w =
     (if pending w r
      then (case fetches w ! r of
              SearchReq q psize page \<Rightarrow>
                performSearch_resume psize page out (w\<lparr> answered := r # answered w \<rparr>)
            | _ \<Rightarrow> w)
      else w)"

definition summaryArrives :: "nat \<Rightarrow> SummaryResponse outcome \<Rightarrow> world \<Rightarrow> world" where
  "summaryArrives r out w =
     (if pending w r
      then (case fetches w ! r of
              SummaryReq m \<Rightarrow> fetchSummary_resume out (w\<lparr> answered := r # answered w \<rparr>)
            | _ \<Rightarrow> w)
      else w)"

text \<open>
  What the rendered page lets the user do. A button that is not rendered or is
  \<open>disabled\<close> delivers no click.
\<close>

definition suggestions_rendered :: "world \<Rightarrow> bool" where
  "suggestions_rendered w = (showSuggestions w \<and> suggestions w \<noteq> [])"

definition loadMore_rendered :: "world \<Rightarrow> bool" where
  "loadMore_rendered w = (searchResults w \<noteq> [] \<and> hasMoreResults w)"

datatype event =
    InputChange jstring
  | KeyDown jstring
  | Focus
  | Blur
  | ClickSearch
  | ClickSuggestion nat
  | ClickLoadMore
  | ClickSummarize nat
  | CloseSummary
  | ToggleAdvanced bool
  | Wait nat
  | SuggestionsArrive nat "AutocompleteResponse outcome"
  | SearchArrives nat "SearchResponse outcome"
  | SummaryArrives nat "SummaryResponse outcome"

fun step :: "event \<Rightarrow> world \<Rightarrow> world" where
  "step (InputChange v) w = handleInputChange v w"
| "step (KeyDown k) w = handleKeyPress k w"
| "step Focus w =
     (if \<not> blank (query w) then fetchSuggestions (useAdvancedAutocomplete w) (query w) w else w)"
| "step Blur w = snd (setTimeout HideSuggestions 150 w)"
| "step ClickSearch w = (if isSearching w then w else handleSearch None w)"
| "step (ClickSuggestion i) w =
     (if suggestions_rendered w \<and> i < length (suggestions w)
      then handleSuggestionClick (suggestions w ! i) w else w)"
| "step ClickLoadMore w =
     (if loadMore_rendered w \<and> \<not> isSearching w then loadMoreResults w else w)"
| "step (ClickSummarize i) w =
     (if i < length (searchResults w) \<and> \<not> isLoadingSummary w
      then fetchSummary (id_m (searchResults w ! i)) w else w)"
| "step CloseSummary w =
     (if selectedSummary w \<noteq> None then w\<lparr> selectedSummary := None \<rparr> else w)"
| "step (ToggleAdvanced b) w = w\<lparr> useAdvancedAutocomplete := b \<rparr>"
| "step (Wait d) w = advance d w"
| "step (SuggestionsArrive r out) w = suggestionsArrive r out w"
| "step (SearchArrives r out) w = searchArrives r out w"
| "step (SummaryArrives r out) w = summaryArrives r out w"

fun run :: "event list \<Rightarrow> world \<Rightarrow> world" where
  "run [] w = w"
| "run (e # es) w = run es (step e w)"

subsection \<open>The suggestion response as raw JSON\<close>

text \<open>
  What \<open>response.json()\<close> can resolve to. A number is kept as the significand and the
  decimal exponent of its literal; an object as its members in the order of the text, the
  last member of a name being the one a property access finds.
\<close>

datatype json =
    JNull
  | JBool bool
  | JNum int int
  | JStr jstring
  | JArr "json list"
  | JObj "(jstring \<times> json) list"

text \<open>
  \<open>data.suggestions\<close>: a TypeError on \<open>null\<close>, the member of an object when it has one,
  and \<open>undefined\<close> (\<open>Value None\<close>) otherwise.
\<close>

datatype access = Throws | Value "json option"

fun data_suggestions :: "json \<Rightarrow> access" where
  "data_suggestions JNull = Throws"
| "data_suggestions (JObj members) = Value (map_of (rev members) (js ''suggestions''))"
| "data_suggestions j = Value None"

text \<open>
  \<open>fetchSuggestions\<close> after its \<open>await\<close>s (lines 71 to 77), on the raw body: the calls of
  the state setters and of \<open>console.error\<close> it makes, in order, with the values it passes.
\<close>

datatype effect =
    SetSuggestions "json option"
  | SetShowSuggestions bool
  | ConsoleError string

definition fetchSuggestions_resume_raw :: "json outcome \<Rightarrow> effect list" where
  "fetchSuggestions_resume_raw out =
     (let caught = [ConsoleError ''Error fetching suggestions:'',
                    SetSuggestions (Some (JArr [])), SetShowSuggestions False]
      in case out of
           Response status (Some data) \<Rightarrow>
             (case data_suggestions data of
                Value v \<Rightarrow> [SetSuggestions v, SetShowSuggestions True]
              | Throws \<Rightarrow> caught)
         | _ \<Rightarrow> caught)"

text \<open>
  The setter calls on the state of the event loop, whose \<open>suggestions\<close> are of the declared
  type \<open>string[]\<close>: a value of another shape has no state there (\<open>None\<close>).
\<close>

fun as_string :: "json \<Rightarrow> jstring option" where
  "as_string (JStr s) = Some s"
| "as_string j = None"

fun as_strings :: "json option \<Rightarrow> jstring list option" where
  "as_strings (Some (JArr xs)) = those (map as_string xs)"
| "as_strings v = None"

fun apply_effect :: "effect \<Rightarrow> world \<Rightarrow> world option" where
  "apply_effect (SetSuggestions v) w =
     (case as_strings v of None \<Rightarrow> None | Some ss \<Rightarrow> Some (w\<lparr> suggestions := ss \<rparr>))"
| "apply_effect (SetShowSuggestions b) w = Some (w\<lparr> showSuggestions := b \<rparr>)"
| "apply_effect (ConsoleError m) w = Some (console_error m w)"

fun apply_effects :: "effect list \<Rightarrow> world \<Rightarrow> world option" where
  "apply_effects [] w = Some w"
| "apply_effects (x # xs) w =
     (case apply_effect x w of None \<Rightarrow> None | Some w' \<Rightarrow> apply_effects xs w')"

definition suggestionsArrive_raw :: "nat \<Rightarrow> json outcome \<Rightarrow> world \<Rightarrow> world option" where
  "suggestionsArrive_raw r out w =
     (if pending w r
      then (case fetches w ! r of
              SuggestReq q adv n \<Rightarrow>
                apply_effects (fetchSuggestions_resume_raw out) (w\<lparr> answered := r # answered w \<rparr>)
            | _ \<Rightarrow> Some w)
      else Some w)"

subsection \<open>Notions used in the statements\<close>

text \<open>The requests a timer callback issues when it runs (\<open>fetchSuggestions\<close> skips a blank text).\<close>

definition issues :: "callback \<Rightarrow> request list" where
  "issues cb = (case cb of SuggestLater v adv \<Rightarrow> if blank v then [] else [SuggestReq v adv 5]
                | HideSuggestions \<Rightarrow> [])"

definition is_suggest :: "timer \<Rightarrow> bool" where
  "is_suggest t = (case run_cb t of SuggestLater v adv \<Rightarrow> True | HideSuggestions \<Rightarrow> False)"

text \<open>
  Every debounce timer that has not fired is the one \<open>debounceTimer.current\<close> names: the
  component sets such a timer only in \<open>handleInputChange\<close>, after clearing the one before.
\<close>

definition deb_inv :: "world \<Rightarrow> bool" where
  "deb_inv w = list_all (\<lambda>t. is_suggest t \<longrightarrow> debounceTimer w = Some (tid t)) (timers w)"

text \<open>Exactly one debounce timer is waiting: for text \<open>v\<close>, mode \<open>adv\<close>, due at \<open>T\<close>.\<close>

definition armed :: "jstring \<Rightarrow> bool \<Rightarrow> nat \<Rightarrow> world \<Rightarrow> bool" where
  "armed v adv T w =
     (case debounceTimer w of None \<Rightarrow> False
      | Some i \<Rightarrow> filter is_suggest (timers w) = [\<lparr> tid = i, due = T, run_cb = SuggestLater v adv \<rparr>])"

text \<open>The debounce timer for text \<open>v\<close> is waiting and not yet due.\<close>

definition waiting :: "jstring \<Rightarrow> nat \<Rightarrow> world \<Rightarrow> bool" where
  "waiting v T w = (clock w < T \<and> (armed v True T w \<or> armed v False T w))"

text \<open>The events other than a keystroke and a focus of the input.\<close>

fun quiet :: "event \<Rightarrow> bool" where
  "quiet (InputChange v) = False"
| "quiet Focus = False"
| "quiet e = True"

text \<open>The time that passes during a list of events.\<close>

fun elapsed :: "event list \<Rightarrow> nat" where
  "elapsed [] = 0"
| "elapsed (Wait d # es) = d + elapsed es"
| "elapsed (e # es) = elapsed es"

text \<open>Further keystrokes, each after the events \<open>between\<close> it and the keystroke before.\<close>

fun typing :: "(event list \<times> jstring) list \<Rightarrow> event list" where
  "typing [] = []"
| "typing ((between, v) # ks) = between @ InputChange v # typing ks"

text \<open>The texts of the suggestion fetches among the requests issued, in order.\<close>

fun suggested :: "request list \<Rightarrow> jstring list" where
  "suggested [] = []"
| "suggested (SuggestReq q adv n # rs) = q # suggested rs"
| "suggested (r # rs) = suggested rs"

subsection \<open>Sample data and traces\<close>

definition sample_mod :: "int \<Rightarrow> ModResult" where
  "sample_mod i = \<lparr> id_m = i, title = (js ''Tinkers Construct''), authors = [(js ''mDiyo'')],
     categories = [(js ''Tools'')], description = (js ''Build tools''), popularityRank = 1,
     websiteUrl = (js ''https://example.org/mod'') \<rparr>"

definition sample_page :: "nat \<Rightarrow> SearchResponse" where
  "sample_page n = \<lparr> sr_query = (js ''tinkers''), sr_results = map (\<lambda>i. sample_mod (int i)) [0..<n] \<rparr>"

definition sample_summary :: SummaryResponse where
  "sample_summary = \<lparr> mod_id = (js ''0''), sm_title = (js ''Tinkers Construct''), summary = (js ''A mod about tools.'') \<rparr>"

text \<open>
  Two suggestion requests, for \<open>a\<close> and then for \<open>ab\<close>, both open; the answer to the
  second arrives first.
\<close>

definition stale_trace :: "event list" where
  "stale_trace =
     [InputChange (js ''a''), Wait 1000, InputChange (js ''ab''), Wait 1000,
      SuggestionsArrive 1 (Response 200 (Some \<lparr> ac_query = (js ''ab''), ac_suggestions = [(js ''abacus'')] \<rparr>)),
      SuggestionsArrive 0 (Response 200 (Some \<lparr> ac_query = (js ''a''), ac_suggestions = [(js ''apple'')] \<rparr>))]"

text \<open>Typing \<open>a\<close>, then deleting it half a second later.\<close>

definition erase_trace :: "event list" where
  "erase_trace = [InputChange (js ''a''), Wait 500, InputChange [], Wait 1000]"

text \<open>A submit while the debounce timer of the last keystroke is waiting, then one second.\<close>

definition submit_then_timer_trace :: "event list" where
  "submit_then_timer_trace = [InputChange (js ''ab''), KeyDown (js ''Enter''), Wait 1000]"

text \<open>A full first page, then a load-more whose fetch fails.\<close>

definition loadMore_fail_trace :: "event list" where
  "loadMore_fail_trace =
     [InputChange (js ''tinkers''), KeyDown (js ''Enter''),
      SearchArrives 0 (Response 200 (Some (sample_page 10))),
      ClickLoadMore, SearchArrives 1 NetworkError]"

text \<open>A first page of three results: fewer than the page size.\<close>

definition short_page_trace :: "event list" where
  "short_page_trace =
     [InputChange (js ''a''), KeyDown (js ''Enter''), SearchArrives 0 (Response 200 (Some (sample_page 3)))]"

text \<open>
  Two submits (the Enter key is not disabled while a search runs); the first is answered
  with a full page while the second is still open.
\<close>

definition overlap_trace :: "event list" where
  "overlap_trace =
     [InputChange (js ''a''), KeyDown (js ''Enter''), InputChange (js ''ab''), KeyDown (js ''Enter''),
      SearchArrives 0 (Response 200 (Some (sample_page 10)))]"

text \<open>A summary is requested for the first result and arrives.\<close>

definition summarized_trace :: "event list" where
  "summarized_trace =
     [InputChange (js ''tinkers''), KeyDown (js ''Enter''),
      SearchArrives 0 (Response 200 (Some (sample_page 2))),
      ClickSummarize 0, SummaryArrives 1 (Response 200 (Some sample_summary))]"

text \<open>A summary is requested for the first result and the fetch fails.\<close>

definition summary_fail_trace :: "event list" where
  "summary_fail_trace =
     [InputChange (js ''tinkers''), KeyDown (js ''Enter''),
      SearchArrives 0 (Response 200 (Some (sample_page 2))),
      ClickSummarize 0, SummaryArrives 1 NetworkError]"

text \<open>One keystroke; the input loses the focus and gets it back; then one second.\<close>

definition focus_trace :: "event list" where
  "focus_trace = [InputChange (js ''a''), Blur, Focus, Wait 1000]"




section \<open>Basic facts\<close>

lemmas handler_defs =
  handleInputChange_def setTimeout_def clearTimeout_def fetch_def console_error_def
  fetchSuggestions_def fetchSuggestions_resume_def performSearch_def performSearch_resume_def
  handleSearch_def handleSuggestionClick_def loadMoreResults_def fetchSummary_def
  fetchSummary_resume_def handleKeyPress_def suggestionsArrive_def searchArrives_def
  summaryArrives_def pending_def suggestions_rendered_def loadMore_rendered_def pageSize_def

lemmas eval_defs = handler_defs init_def blank_def trim_def is_space_def js_def advance_def
  run_callback_def Let_def

lemma code_point_UChar [simp]:
  "n < 0xD800 \<or> (0xE000 \<le> n \<and> n < 0x110000) \<Longrightarrow> code_point (UChar n) = n"
  by (simp add: UChar_inverse)

lemma of_char_less: "of_char c < (256::nat)"
proof -
  have "(of_char c :: nat) mod 256 = of_char c" by (rule of_char_mod_256)
  moreover have "(of_char c :: nat) mod 256 < 256" by simp
  ultimately show ?thesis by simp
qed

lemma code_point_ascii [simp]: "code_point (UChar (of_char c)) = of_char c"
proof -
  have "(of_char c :: nat) < 0xD800" using of_char_less [of c] by arith
  then show ?thesis by (simp add: code_point_UChar)
qed

lemma js_inject [simp]: "(js s = js t) = (s = t)"
proof -
  have "inj (\<lambda>c::char. UChar (of_char c))"
  proof (rule injI)
    fix x y :: char assume "UChar (of_char x) = UChar (of_char y)"
    then have "code_point (UChar (of_char x)) = code_point (UChar (of_char y))" by simp
    then have "(of_char x :: nat) = of_char y" by simp
    then show "x = y" by simp
  qed
  then show ?thesis by (simp add: js_def inj_map_eq_map)
qed

lemma js_Nil [simp]: "(js s = []) = (s = [])"
  by (simp add: js_def)

lemma run_append: "run (es @ es') w = run es' (run es w)"
  by (induction es arbitrary: w) simp_all

lemma run_callback_frame:
  "fetches (run_callback cb w) = fetches w @ issues cb"
  "timers (run_callback cb w) = timers w"
  "debounceTimer (run_callback cb w) = debounceTimer w"
  "useAdvancedAutocomplete (run_callback cb w) = useAdvancedAutocomplete w"
  "clock (run_callback cb w) = clock w"
  "currentPage (run_callback cb w) = currentPage w"
  "nextTimer (run_callback cb w) = nextTimer w"
  by (simp_all add: run_callback_def issues_def fetchSuggestions_def fetch_def split: callback.split)

lemma fire_frame:
  "fetches (fire ts w) = fetches w @ concat (map (\<lambda>t. issues (run_cb t)) ts)"
  "timers (fire ts w) = timers w"
  "debounceTimer (fire ts w) = debounceTimer w"
  "useAdvancedAutocomplete (fire ts w) = useAdvancedAutocomplete w"
  "clock (fire ts w) = clock w"
  "currentPage (fire ts w) = currentPage w"
  "nextTimer (fire ts w) = nextTimer w"
  by (induction ts arbitrary: w; simp add: run_callback_frame)+

lemma issues_only_suggest:
  "concat (map (\<lambda>t. issues (run_cb t)) ts) = concat (map (\<lambda>t. issues (run_cb t)) (filter is_suggest ts))"
  by (induction ts) (auto simp: is_suggest_def issues_def split: callback.splits)

lemma advance_frame:
  "timers (advance d w) = filter (\<lambda>t. \<not> due t \<le> clock w + d) (timers w)"
  "debounceTimer (advance d w) = debounceTimer w"
  "useAdvancedAutocomplete (advance d w) = useAdvancedAutocomplete w"
  "clock (advance d w) = clock w + d"
  "currentPage (advance d w) = currentPage w"
  by (simp_all add: advance_def Let_def fire_frame)

lemma advance_fetches:
  "fetches (advance d w) = fetches w @
     concat (map (\<lambda>t. issues (run_cb t))
       (sort_key due (filter (\<lambda>t. due t \<le> clock w + d) (filter is_suggest (timers w)))))"
proof -
  have "filter is_suggest (sort_key due (filter (\<lambda>t. due t \<le> clock w + d) (timers w)))
      = sort_key due (filter (\<lambda>t. due t \<le> clock w + d) (filter is_suggest (timers w)))"
    by (simp add: filter_sort conj_commute)
  then show ?thesis
    using issues_only_suggest [of "sort_key due (filter (\<lambda>t. due t \<le> clock w + d) (timers w))"]
    by (simp add: advance_def Let_def fire_frame)
qed

lemma deb_inv_filter:
  "deb_inv w \<Longrightarrow> debounceTimer w = Some i \<Longrightarrow>
     filter (\<lambda>t. tid t \<noteq> i \<and> is_suggest t) (timers w) = []"
  by (auto simp: deb_inv_def list_all_iff filter_empty_conv)

lemma deb_inv_None:
  "deb_inv w \<Longrightarrow> debounceTimer w = None \<Longrightarrow> filter is_suggest (timers w) = []"
  by (auto simp: deb_inv_def list_all_iff filter_empty_conv)

lemma armed_deb_inv: "armed v adv T w \<Longrightarrow> deb_inv w"
proof -
  assume a: "armed v adv T w"
  then obtain i where i: "debounceTimer w = Some i"
    and f: "filter is_suggest (timers w) = [\<lparr> tid = i, due = T, run_cb = SuggestLater v adv \<rparr>]"
    by (auto simp: armed_def split: option.splits)
  have "\<And>t. t \<in> set (timers w) \<Longrightarrow> is_suggest t \<Longrightarrow> tid t = i"
  proof -
    fix t assume "t \<in> set (timers w)" "is_suggest t"
    then have "t \<in> set (filter is_suggest (timers w))" by simp
    with f show "tid t = i" by simp
  qed
  with i show ?thesis by (auto simp: deb_inv_def list_all_iff)
qed

lemma handleInputChange_frame:
  "fetches (handleInputChange v w) = fetches w"
  "clock (handleInputChange v w) = clock w"
  "useAdvancedAutocomplete (handleInputChange v w) = useAdvancedAutocomplete w"
  "query (handleInputChange v w) = v"
  "currentPage (handleInputChange v w) = currentPage w"
  by (simp_all add: handleInputChange_def setTimeout_def clearTimeout_def Let_def split: option.split)

lemma is_suggest_SuggestLater [simp]:
  "is_suggest \<lparr> tid = i, due = T, run_cb = SuggestLater v adv \<rparr>"
  by (simp add: is_suggest_def)

lemma handleInputChange_armed:
  assumes "deb_inv w"
  shows "armed v (useAdvancedAutocomplete w) (clock w + 1000) (handleInputChange v w)"
proof (cases "debounceTimer w")
  case None
  with assms show ?thesis
    by (simp add: armed_def handleInputChange_def setTimeout_def Let_def deb_inv_None)
next
  case (Some i)
  with assms show ?thesis
    by (simp add: armed_def handleInputChange_def setTimeout_def clearTimeout_def Let_def
        deb_inv_filter)
qed

lemma advance_early:
  assumes "armed v adv T w" and "clock w + d < T"
  shows "armed v adv T (advance d w)" and "fetches (advance d w) = fetches w"
proof -
  from assms(1) obtain i where i: "debounceTimer w = Some i"
    and f: "filter is_suggest (timers w) = [\<lparr> tid = i, due = T, run_cb = SuggestLater v adv \<rparr>]"
    by (auto simp: armed_def split: option.splits)
  have "filter is_suggest (filter (\<lambda>t. \<not> due t \<le> clock w + d) (timers w))
      = filter (\<lambda>t. \<not> due t \<le> clock w + d) (filter is_suggest (timers w))"
    by (simp add: conj_commute)
  with f assms(2) i show "armed v adv T (advance d w)"
    by (simp add: armed_def advance_frame)
  from f assms(2) show "fetches (advance d w) = fetches w"
    by (simp add: advance_fetches)
qed

lemma advance_late:
  assumes "armed v adv T w" and "T \<le> clock w + d"
  shows "fetches (advance d w) = fetches w @ issues (SuggestLater v adv)"
proof -
  from assms(1) obtain i where
    f: "filter is_suggest (timers w) = [\<lparr> tid = i, due = T, run_cb = SuggestLater v adv \<rparr>]"
    by (auto simp: armed_def split: option.splits)
  with assms(2) show ?thesis
    by (simp add: advance_fetches)
qed

lemma blank_Nil: "blank []"
  by (simp add: blank_def trim_def)

lemma deb_inv_cong:
  "timers w' = timers w \<Longrightarrow> debounceTimer w' = debounceTimer w \<Longrightarrow> deb_inv w' = deb_inv w"
  by (simp add: deb_inv_def)

lemma performSearch_frame:
  "timers (performSearch q p w) = timers w"
  "debounceTimer (performSearch q p w) = debounceTimer w"
  "clock (performSearch q p w) = clock w"
  "currentPage (performSearch q p w) = currentPage w"
  "useAdvancedAutocomplete (performSearch q p w) = useAdvancedAutocomplete w"
  by (simp_all add: performSearch_def fetch_def)

lemma handleSearch_frame:
  "timers (handleSearch a w) = timers w"
  "debounceTimer (handleSearch a w) = debounceTimer w"
  "clock (handleSearch a w) = clock w"
  "currentPage (handleSearch a w) = currentPage w"
  "useAdvancedAutocomplete (handleSearch a w) = useAdvancedAutocomplete w"
  by (simp_all add: handleSearch_def Let_def performSearch_frame)

lemma handleKeyPress_frame:
  "timers (handleKeyPress k w) = timers w"
  "debounceTimer (handleKeyPress k w) = debounceTimer w"
  "currentPage (handleKeyPress k w) = currentPage w"
  by (simp_all add: handleKeyPress_def handleSearch_frame)

lemma fetchSuggestions_frame:
  "timers (fetchSuggestions adv q w) = timers w"
  "debounceTimer (fetchSuggestions adv q w) = debounceTimer w"
  "currentPage (fetchSuggestions adv q w) = currentPage w"
  by (simp_all add: fetchSuggestions_def fetch_def)

lemma handleSuggestionClick_frame:
  "timers (handleSuggestionClick s w) = timers w"
  "debounceTimer (handleSuggestionClick s w) = debounceTimer w"
  "currentPage (handleSuggestionClick s w) = currentPage w"
  by (simp_all add: handleSuggestionClick_def performSearch_frame)

lemma loadMoreResults_frame:
  "timers (loadMoreResults w) = timers w"
  "debounceTimer (loadMoreResults w) = debounceTimer w"
  "currentPage (loadMoreResults w) = currentPage w"
  by (simp_all add: loadMoreResults_def performSearch_frame)

lemma fetchSummary_frame:
  "timers (fetchSummary m w) = timers w"
  "debounceTimer (fetchSummary m w) = debounceTimer w"
  "currentPage (fetchSummary m w) = currentPage w"
  by (simp_all add: fetchSummary_def fetch_def)

lemma suggestionsArrive_frame:
  "timers (suggestionsArrive r out w) = timers w"
  "debounceTimer (suggestionsArrive r out w) = debounceTimer w"
  "currentPage (suggestionsArrive r out w) = currentPage w"
  by (simp_all add: suggestionsArrive_def fetchSuggestions_resume_def console_error_def
      split: request.split outcome.split option.split)

lemma summaryArrives_frame:
  "timers (summaryArrives r out w) = timers w"
  "debounceTimer (summaryArrives r out w) = debounceTimer w"
  "currentPage (summaryArrives r out w) = currentPage w"
  by (simp_all add: summaryArrives_def fetchSummary_resume_def console_error_def
      split: request.split outcome.split option.split)

lemma searchArrives_frame:
  "timers (searchArrives r out w) = timers w"
  "debounceTimer (searchArrives r out w) = debounceTimer w"
  by (simp_all add: searchArrives_def performSearch_resume_def console_error_def
      split: request.split outcome.split option.split)

text \<open>The debounce invariant holds on the mounted page and after every event.\<close>

lemma deb_inv_init: "deb_inv init"
  by (simp add: deb_inv_def init_def)

lemma deb_inv_step: "deb_inv w \<Longrightarrow> deb_inv (step e w)"
proof (cases e)
  case (InputChange v)
  assume "deb_inv w"
  from armed_deb_inv [OF handleInputChange_armed [OF this]] InputChange show ?thesis by simp
next
  case Blur
  assume "deb_inv w"
  with Blur show ?thesis
    by (simp add: deb_inv_def setTimeout_def is_suggest_def)
next
  case (Wait d)
  assume "deb_inv w"
  with Wait show ?thesis
    by (simp add: deb_inv_def advance_frame list_all_iff)
qed (simp_all add: deb_inv_cong handleKeyPress_frame fetchSuggestions_frame handleSearch_frame
      handleSuggestionClick_frame loadMoreResults_frame fetchSummary_frame
      suggestionsArrive_frame summaryArrives_frame searchArrives_frame deb_inv_def)

lemma deb_inv_run: "deb_inv w \<Longrightarrow> deb_inv (run es w)"
  by (induction es arbitrary: w) (simp_all add: deb_inv_step)

lemma performSearch_armed:
  "armed v adv T w \<Longrightarrow> armed v adv T (performSearch q p w)"
  by (simp add: armed_def performSearch_frame split: option.splits)


lemma suggested_append: "suggested (xs @ ys) = suggested xs @ suggested ys"
  by (induction xs rule: suggested.induct) simp_all

lemma suggested_issues:
  "suggested (issues (SuggestLater v adv)) = (if blank v then [] else [v])"
  by (simp add: issues_def)

lemma elapsed_other: "\<forall>d. e \<noteq> Wait d \<Longrightarrow> elapsed (e # es) = elapsed es"
  by (cases e) auto

lemma armed_cong:
  "filter is_suggest (timers w') = filter is_suggest (timers w) \<Longrightarrow>
   debounceTimer w' = debounceTimer w \<Longrightarrow> armed v adv T w' = armed v adv T w"
  by (simp add: armed_def split: option.splits)

lemma quiet_step_frame:
  assumes "quiet e" and "\<forall>d. e \<noteq> Wait d"
  shows "filter is_suggest (timers (step e w)) = filter is_suggest (timers w)"
    and "debounceTimer (step e w) = debounceTimer w"
    and "clock (step e w) = clock w"
    and "suggested (fetches (step e w)) = suggested (fetches w)"
  using assms
  by (cases e;
      simp add: handler_defs Let_def is_suggest_def suggested_append
        split: option.split request.split outcome.split)+

lemma quiet_step_waiting:
  assumes "quiet e" and "\<forall>d. e \<noteq> Wait d" and "waiting v T w"
  shows "waiting v T (step e w)"
proof -
  have same: "armed v adv T (step e w) = armed v adv T w" for adv
    by (rule armed_cong) (simp_all add: quiet_step_frame [OF assms(1,2)])
  from assms(3) show ?thesis
    by (simp add: waiting_def same quiet_step_frame(3) [OF assms(1,2)])
qed

lemma advance_waiting:
  assumes "waiting v T w" and "clock w + d < T"
  shows "waiting v T (advance d w)" and "fetches (advance d w) = fetches w"
proof -
  from assms(1) obtain adv where a: "armed v adv T w"
    by (auto simp: waiting_def)
  from advance_early [OF a assms(2)]
  have a1: "armed v adv T (advance d w)" and f1: "fetches (advance d w) = fetches w"
    by simp_all
  from a1 have "armed v True T (advance d w) \<or> armed v False T (advance d w)"
    by (cases adv) simp_all
  with assms(2) show "waiting v T (advance d w)"
    by (simp add: waiting_def advance_frame)
  from f1 show "fetches (advance d w) = fetches w" .
qed

lemma advance_fires:
  assumes "waiting v T w" and "T \<le> clock w + d"
  shows "suggested (fetches (advance d w)) = suggested (fetches w) @ (if blank v then [] else [v])"
    and "filter is_suggest (timers (advance d w)) = []"
proof -
  from assms(1) obtain adv where a: "armed v adv T w"
    by (auto simp: waiting_def)
  from advance_late [OF a assms(2)]
  show "suggested (fetches (advance d w)) = suggested (fetches w) @ (if blank v then [] else [v])"
    by (simp add: suggested_append suggested_issues)
  from a obtain i where
    f: "filter is_suggest (timers w) = [\<lparr> tid = i, due = T, run_cb = SuggestLater v adv \<rparr>]"
    by (auto simp: armed_def split: option.splits)
  have "filter is_suggest (filter (\<lambda>t. \<not> due t \<le> clock w + d) (timers w))
      = filter (\<lambda>t. \<not> due t \<le> clock w + d) (filter is_suggest (timers w))"
    by (simp add: conj_commute)
  with f assms(2) show "filter is_suggest (timers (advance d w)) = []"
    by (simp add: advance_frame)
qed

lemma idle_step:
  assumes "quiet e" and "filter is_suggest (timers w) = []"
  shows "filter is_suggest (timers (step e w)) = []"
    and "suggested (fetches (step e w)) = suggested (fetches w)"
proof -
  show "filter is_suggest (timers (step e w)) = []"
  proof (cases "\<exists>d. e = Wait d")
    case True
    then obtain d where e: "e = Wait d" by blast
    have "filter is_suggest (filter (\<lambda>t. \<not> due t \<le> clock w + d) (timers w))
        = filter (\<lambda>t. \<not> due t \<le> clock w + d) (filter is_suggest (timers w))"
      by (simp add: conj_commute)
    with assms(2) e show ?thesis by (simp add: advance_frame)
  next
    case False
    with quiet_step_frame(1) [OF assms(1), of w] assms(2) show ?thesis by simp
  qed
  show "suggested (fetches (step e w)) = suggested (fetches w)"
  proof (cases "\<exists>d. e = Wait d")
    case True
    then obtain d where e: "e = Wait d" by blast
    with assms(2) show ?thesis by (simp add: advance_fetches)
  next
    case False
    with quiet_step_frame(4) [OF assms(1), of w] show ?thesis by simp
  qed
qed

lemma idle_run:
  "list_all quiet es \<Longrightarrow> filter is_suggest (timers w) = [] \<Longrightarrow>
   suggested (fetches (run es w)) = suggested (fetches w)"
  by (induction es arbitrary: w) (simp_all add: idle_step)

lemma between_waiting:
  "waiting v T w \<Longrightarrow> list_all quiet es \<Longrightarrow> clock w + elapsed es < T \<Longrightarrow>
   waiting v T (run es w) \<and> suggested (fetches (run es w)) = suggested (fetches w)"
proof (induction es arbitrary: w)
  case Nil
  then show ?case by simp
next
  case (Cons e es)
  show ?case
  proof (cases "\<exists>d. e = Wait d")
    case True
    then obtain d where e: "e = Wait d" by blast
    from Cons.prems(3) e have early: "clock w + d < T" by simp
    have w1: "waiting v T (advance d w)" and f1: "fetches (advance d w) = fetches w"
      using advance_waiting [OF Cons.prems(1) early] by simp_all
    from Cons.prems(3) e have c1: "clock (advance d w) + elapsed es < T"
      by (simp add: advance_frame add.assoc)
    from Cons.prems(2) have q: "list_all quiet es" by simp
    from Cons.IH [OF w1 q c1] f1 e show ?thesis by simp
  next
    case False
    then have nw: "\<forall>d. e \<noteq> Wait d" by blast
    from Cons.prems(2) have qe: "quiet e" and q: "list_all quiet es" by simp_all
    have w1: "waiting v T (step e w)"
      using quiet_step_waiting [OF qe nw Cons.prems(1)] .
    have c1: "clock (step e w) + elapsed es < T"
      using Cons.prems(3) quiet_step_frame(3) [OF qe nw, of w] elapsed_other [OF nw, of es]
      by simp
    from Cons.IH [OF w1 q c1] quiet_step_frame(4) [OF qe nw, of w] show ?thesis by simp
  qed
qed

lemma finally_fires:
  "waiting v T w \<Longrightarrow> list_all quiet es \<Longrightarrow> T \<le> clock w + elapsed es \<Longrightarrow>
   suggested (fetches (run es w)) = suggested (fetches w) @ (if blank v then [] else [v])"
proof (induction es arbitrary: w)
  case Nil
  then show ?case by (simp add: waiting_def)
next
  case (Cons e es)
  from Cons.prems(2) have qe: "quiet e" and q: "list_all quiet es" by simp_all
  show ?case
  proof (cases "\<exists>d. e = Wait d")
    case True
    then obtain d where e: "e = Wait d" by blast
    show ?thesis
    proof (cases "clock w + d < T")
      case True
      have w1: "waiting v T (advance d w)" and f1: "fetches (advance d w) = fetches w"
        using advance_waiting [OF Cons.prems(1) True] by simp_all
      from Cons.prems(3) e have c1: "T \<le> clock (advance d w) + elapsed es"
        by (simp add: advance_frame add.assoc)
      from Cons.IH [OF w1 q c1] f1 e show ?thesis by simp
    next
      case False
      then have late: "T \<le> clock w + d" by simp
      from idle_run [OF q advance_fires(2) [OF Cons.prems(1) late]]
        advance_fires(1) [OF Cons.prems(1) late] e
      show ?thesis by simp
    qed
  next
    case False
    then have nw: "\<forall>d. e \<noteq> Wait d" by blast
    have w1: "waiting v T (step e w)"
      using quiet_step_waiting [OF qe nw Cons.prems(1)] .
    have c1: "T \<le> clock (step e w) + elapsed es"
      using Cons.prems(3) quiet_step_frame(3) [OF qe nw, of w] elapsed_other [OF nw, of es]
      by simp
    from Cons.IH [OF w1 q c1] quiet_step_frame(4) [OF qe nw, of w] show ?thesis by simp
  qed
qed

lemma waiting_deb_inv: "waiting v T w \<Longrightarrow> deb_inv w"
  by (auto simp: waiting_def dest: armed_deb_inv)

lemma handleInputChange_waiting:
  "deb_inv w \<Longrightarrow> waiting v (clock w + 1000) (handleInputChange v w)"
  using handleInputChange_armed [of w v]
  by (cases "useAdvancedAutocomplete w") (simp_all add: waiting_def handleInputChange_frame)

lemma typing_waiting:
  "waiting v (clock w + 1000) w \<Longrightarrow>
   list_all (\<lambda>k. list_all quiet (fst k) \<and> elapsed (fst k) < 1000) ks \<Longrightarrow>
   waiting (last (v # map snd ks)) (clock (run (typing ks) w) + 1000) (run (typing ks) w)
   \<and> suggested (fetches (run (typing ks) w)) = suggested (fetches w)"
proof (induction ks arbitrary: v w)
  case Nil
  then show ?case by simp
next
  case (Cons k ks)
  obtain between u where k: "k = (between, u)" by (cases k)
  let ?w1 = "run between w"
  let ?w2 = "handleInputChange u ?w1"
  from Cons.prems(2) k have q: "list_all quiet between" and t: "clock w + elapsed between < clock w + 1000"
    and rest: "list_all (\<lambda>k. list_all quiet (fst k) \<and> elapsed (fst k) < 1000) ks"
    by simp_all
  from between_waiting [OF Cons.prems(1) q t]
  have w1: "waiting v (clock w + 1000) ?w1" and f1: "suggested (fetches ?w1) = suggested (fetches w)"
    by simp_all
  have w2: "waiting u (clock ?w2 + 1000) ?w2"
    using handleInputChange_waiting [OF waiting_deb_inv [OF w1], of u]
    by (simp add: handleInputChange_frame)
  from Cons.IH [OF w2 rest] f1 k show ?case
    by (simp add: run_append handleInputChange_frame)
qed

text \<open>On bodies of the declared shape the raw handler is the one of the event loop.\<close>

lemma data_suggestions_Value: "data \<noteq> JNull \<Longrightarrow> \<exists>v. data_suggestions data = Value v"
  by (cases data) simp_all

lemma data_suggestions_Throws: "(data_suggestions data = Throws) = (data = JNull)"
  by (cases data) simp_all

lemma raw_agrees_typed:
  assumes "data_suggestions data = Value v" and "as_strings v = Some ss"
  shows "suggestionsArrive_raw r (Response status (Some data)) w
           = Some (suggestionsArrive r
               (Response status (Some \<lparr> ac_query = q, ac_suggestions = ss \<rparr>)) w)"
  using assms
  by (simp add: suggestionsArrive_raw_def suggestionsArrive_def fetchSuggestions_resume_raw_def
      fetchSuggestions_resume_def split: request.split)

lemma raw_agrees_typed_failure:
  "suggestionsArrive_raw r NetworkError w = Some (suggestionsArrive r NetworkError w)"
  "suggestionsArrive_raw r (Response st None) w = Some (suggestionsArrive r (Response st None) w)"
  by (simp_all add: suggestionsArrive_raw_def suggestionsArrive_def fetchSuggestions_resume_raw_def
      fetchSuggestions_resume_def console_error_def split: request.split)

section \<open>The debounce\<close>

text \<open>
  C8, as amended. After N \<ge> 1 keystrokes, each less than the debounce delay (1000 ms) after
  the one before and with no focus of the input in between, and once the delay has elapsed
  after the last of them, exactly one suggestion fetch has been issued since the first
  keystroke, for the text of the last keystroke, unless that text is blank (empty or white
  space only), in which case none has been issued. Any other event may occur in between
  (a blur, a response, a click; a submit too, which leaves the timer alone).
\<close>

theorem debounce_last_keystroke:
  assumes "deb_inv w"
    and "list_all (\<lambda>k. list_all quiet (fst k) \<and> elapsed (fst k) < 1000) ks"
    and "list_all quiet after" and "1000 \<le> elapsed after"
  shows "suggested (fetches (run (InputChange v # typing ks @ after) w)) =
           suggested (fetches w) @ (if blank (last (v # map snd ks)) then []
                                    else [last (v # map snd ks)])"
proof -
  let ?w0 = "handleInputChange v w"
  let ?w1 = "run (typing ks) ?w0"
  have w0: "waiting v (clock ?w0 + 1000) ?w0"
    using handleInputChange_waiting [OF assms(1), of v] by (simp add: handleInputChange_frame)
  from typing_waiting [OF w0 assms(2)]
  have w1: "waiting (last (v # map snd ks)) (clock ?w1 + 1000) ?w1"
    and f1: "suggested (fetches ?w1) = suggested (fetches w)"
    by (simp_all add: handleInputChange_frame)
  from assms(4) have "clock ?w1 + 1000 \<le> clock ?w1 + elapsed after" by simp
  from finally_fires [OF w1 assms(3) this] f1 show ?thesis
    by (simp add: run_append)
qed

text \<open>
  Witness for C8 as amended: three keystrokes \<open>a\<close>, \<open>ab\<close>, \<open>abc\<close>, 300 ms and 999 ms
  apart, the input losing the focus before the third, on the freshly mounted page; one
  second later one suggestion fetch, for \<open>abc\<close>, has been issued.
\<close>

theorem debounce_last_keystroke_witness:
  "deb_inv init
   \<and> list_all (\<lambda>k. list_all quiet (fst k) \<and> elapsed (fst k) < 1000)
        [([Wait 300], js ''ab''), ([Blur, Wait 999], js ''abc'')]
   \<and> list_all quiet [Wait 1000] \<and> 1000 \<le> elapsed [Wait 1000]
   \<and> suggested (fetches (run (InputChange (js ''a'')
          # typing [([Wait 300], js ''ab''), ([Blur, Wait 999], js ''abc'')] @ [Wait 1000]) init))
       = [js ''abc'']"
proof -
  have h1: "deb_inv init" by (simp add: deb_inv_def init_def)
  have h2: "list_all (\<lambda>k. list_all quiet (fst k) \<and> elapsed (fst k) < 1000)
        [([Wait 300], js ''ab''), ([Blur, Wait 999], js ''abc'')]" by simp
  have h3: "list_all quiet [Wait 1000]" by simp
  have h4: "1000 \<le> elapsed [Wait 1000]" by simp
  have b: "\<not> blank (js ''abc'')" by (simp add: blank_def trim_def is_space_def js_def)
  have i: "fetches init = []" by (simp add: init_def)
  from debounce_last_keystroke [OF h1 h2 h3 h4, of "js ''a''"] b i
  have "suggested (fetches (run (InputChange (js ''a'')
          # typing [([Wait 300], js ''ab''), ([Blur, Wait 999], js ''abc'')] @ [Wait 1000]) init))
       = [js ''abc'']"
    by simp
  with h1 h2 h3 h4 show ?thesis by blast
qed

text \<open>
  C8 as stated fails in two ways. In \<open>erase_trace\<close> the user types \<open>a\<close> and deletes it
  500 ms later: the one timer that survives fires with the empty text, and
  \<open>fetchSuggestions\<close> returns before its fetch, so no suggestion fetch is issued. In
  \<open>focus_trace\<close> the input loses and regains the focus after the one keystroke: the focus
  handler fetches at once and the timer fetches again, so two are issued.
\<close>

theorem debounce_blank_counterexample:
  "fetches (run erase_trace init) = []
   \<and> fetches (run focus_trace init)
       = [SuggestReq (js ''a'') False 5, SuggestReq (js ''a'') False 5]"
  by (simp add: erase_trace_def focus_trace_def eval_defs)

section \<open>Submit and the debounce timer\<close>

text \<open>
  C7, as amended. \<open>handleSearch\<close> (the Enter key or the search button) leaves the timers
  and the timer ref untouched: a waiting debounce timer still fires and issues its
  suggestion fetch. It starts a page-0 search for the current query at once when the
  query is not blank, and does nothing when it is. So after a keystroke with a non-blank
  text, a submit and one second, both the search fetch and the suggestion fetch for that
  text have been issued.
\<close>

theorem handleSearch_keeps_timer:
  "timers (handleSearch None w) = timers w
   \<and> debounceTimer (handleSearch None w) = debounceTimer w
   \<and> (\<not> blank (query w) \<longrightarrow>
        handleSearch None w =
          fetch (SearchReq (query w) pageSize 0)
            (w\<lparr> isSearching := True, showSuggestions := False, searchQuery := query w \<rparr>))
   \<and> (blank (query w) \<longrightarrow> handleSearch None w = w)
   \<and> (deb_inv w \<and> \<not> blank v \<longrightarrow>
        fetches (run [InputChange v, KeyDown (js ''Enter''), Wait 1000] w)
          = fetches w @ [SearchReq v pageSize 0, SuggestReq v (useAdvancedAutocomplete w) 5])"
proof -
  have direct: "(\<not> blank (query w) \<longrightarrow>
        handleSearch None w =
          fetch (SearchReq (query w) pageSize 0)
            (w\<lparr> isSearching := True, showSuggestions := False, searchQuery := query w \<rparr>))
   \<and> (blank (query w) \<longrightarrow> handleSearch None w = w)"
    by (simp add: handleSearch_def performSearch_def Let_def)
  have later: "deb_inv w \<and> \<not> blank v \<longrightarrow>
        fetches (run [InputChange v, KeyDown (js ''Enter''), Wait 1000] w)
          = fetches w @ [SearchReq v pageSize 0, SuggestReq v (useAdvancedAutocomplete w) 5]"
  proof
    assume h: "deb_inv w \<and> \<not> blank v"
    let ?w0 = "handleInputChange v w"
    let ?w1 = "performSearch v 0 ?w0"
    have a0: "armed v (useAdvancedAutocomplete w) (clock w + 1000) ?w0"
      using h handleInputChange_armed by blast
    have a1: "armed v (useAdvancedAutocomplete w) (clock w + 1000) ?w1"
      using a0 by (rule performSearch_armed)
    have c1: "clock w + 1000 \<le> clock ?w1 + 1000"
      by (simp add: performSearch_frame handleInputChange_frame)
    have f1: "fetches ?w1 = fetches w @ [SearchReq v pageSize 0]"
      using h by (simp add: performSearch_def fetch_def handleInputChange_frame)
    have k: "handleKeyPress (js ''Enter'') ?w0 = ?w1"
      using h by (simp add: handleKeyPress_def handleSearch_def handleInputChange_frame)
    from advance_late [OF a1 c1] f1 k h
    show "fetches (run [InputChange v, KeyDown (js ''Enter''), Wait 1000] w)
          = fetches w @ [SearchReq v pageSize 0, SuggestReq v (useAdvancedAutocomplete w) 5]"
      by (simp add: issues_def)
  qed
  from direct later show ?thesis
    by (simp add: handleSearch_frame)
qed

text \<open>
  Witness for C7 as amended: on the freshly mounted page the query is blank and a submit
  does nothing; typing \<open>tinkers\<close>, pressing Enter and waiting a second issues the search
  and then the suggestion fetch.
\<close>

theorem handleSearch_keeps_timer_witness:
  "blank (query init) \<and> handleSearch None init = init
   \<and> deb_inv init \<and> \<not> blank (js ''tinkers'')
   \<and> fetches (run [InputChange (js ''tinkers''), KeyDown (js ''Enter''), Wait 1000] init)
       = [SearchReq (js ''tinkers'') 10 0, SuggestReq (js ''tinkers'') False 5]
   \<and> \<not> blank (query (handleInputChange (js ''tinkers'') init))
   \<and> fetches (handleSearch None (handleInputChange (js ''tinkers'') init)) = [SearchReq (js ''tinkers'') 10 0]"
proof -
  let ?w = "handleInputChange (js ''tinkers'') init"
  have i: "blank (query init)" "fetches init = []" "\<not> useAdvancedAutocomplete init"
    by (simp_all add: init_def blank_Nil)
  have b: "\<not> blank (js ''tinkers'')" by (simp add: blank_def trim_def is_space_def js_def)
  have q: "query ?w = (js ''tinkers'')" "fetches ?w = []"
    using i by (simp_all add: handleInputChange_frame)
  from handleSearch_keeps_timer [of init "(js ''tinkers'')"] i b deb_inv_init
  have a: "handleSearch None init = init
      \<and> fetches (run [InputChange (js ''tinkers''), KeyDown (js ''Enter''), Wait 1000] init)
          = [SearchReq (js ''tinkers'') 10 0, SuggestReq (js ''tinkers'') False 5]"
    by (simp add: pageSize_def)
  from handleSearch_keeps_timer [of ?w] b q
  have "fetches (handleSearch None ?w) = [SearchReq (js ''tinkers'') 10 0]"
    by (simp add: fetch_def pageSize_def)
  with a i b q deb_inv_init show ?thesis by simp
qed

text \<open>
  C7 as stated fails: in \<open>submit_then_timer_trace\<close> the debounce timer for \<open>ab\<close> is
  still waiting after the submit has issued the search, and one second later it fires and
  issues a suggestion fetch.
\<close>

theorem submit_timer_fires_counterexample:
  "timers (run (take 2 submit_then_timer_trace) init)
      = [\<lparr> tid = 1, due = 1000, run_cb = SuggestLater (js ''ab'') False \<rparr>]
   \<and> fetches (run (take 2 submit_then_timer_trace) init) = [SearchReq (js ''ab'') 10 0]
   \<and> fetches (run submit_then_timer_trace init) = [SearchReq (js ''ab'') 10 0, SuggestReq (js ''ab'') False 5]"
  by (simp add: submit_then_timer_trace_def eval_defs)

section \<open>Suggestion responses\<close>

text \<open>
  C1, as amended. When two suggestion requests A and B are open and B's response is applied
  first, A's response, arriving later, is applied as well (no request is compared with the
  latest one issued): the displayed list is then A's result, the result of the response
  that arrived last, and the list is visible.
\<close>

theorem suggestions_last_arrival_wins:
  assumes "pending w a" and "pending w b" and "a \<noteq> b"
    and "fetches w ! a = SuggestReq qa adva na" and "fetches w ! b = SuggestReq qb advb nb"
  shows "suggestions (suggestionsArrive a (Response sa (Some da))
           (suggestionsArrive b (Response sb (Some db)) w)) = ac_suggestions da
       \<and> showSuggestions (suggestionsArrive a (Response sa (Some da))
           (suggestionsArrive b (Response sb (Some db)) w))"
  using assms by (simp add: suggestionsArrive_def pending_def fetchSuggestions_resume_def)

text \<open>
  Witness for C1 as amended: the requests for \<open>a\<close> (request 0) and \<open>ab\<close> (request 1) of
  \<open>stale_trace\<close>, answered in the order 1, 0.
\<close>

theorem suggestions_last_arrival_wins_witness:
  "pending (run (take 4 stale_trace) init) 0 \<and> pending (run (take 4 stale_trace) init) 1
   \<and> suggestions (suggestionsArrive 0 (Response 200 (Some \<lparr> ac_query = (js ''a''), ac_suggestions = [(js ''apple'')] \<rparr>))
         (suggestionsArrive 1 (Response 200 (Some \<lparr> ac_query = (js ''ab''), ac_suggestions = [(js ''abacus'')] \<rparr>))
           (run (take 4 stale_trace) init))) = [(js ''apple'')]"
proof -
  let ?w = "run (take 4 stale_trace) init"
  have f: "fetches ?w = [SuggestReq (js ''a'') False 5, SuggestReq (js ''ab'') False 5]"
    and n: "answered ?w = []"
    by (simp_all add: stale_trace_def eval_defs)
  have p0: "pending ?w 0" and p1: "pending ?w 1"
    using f n by (simp_all add: pending_def)
  have r0: "fetches ?w ! 0 = SuggestReq (js ''a'') False 5" and r1: "fetches ?w ! 1 = SuggestReq (js ''ab'') False 5"
    using f by simp_all
  have d: "(0::nat) \<noteq> 1" by simp
  show ?thesis
    using suggestions_last_arrival_wins [OF p0 p1 d r0 r1, of 200
        "\<lparr> ac_query = (js ''a''), ac_suggestions = [(js ''apple'')] \<rparr>" 200
        "\<lparr> ac_query = (js ''ab''), ac_suggestions = [(js ''abacus'')] \<rparr>"] p0 p1
    by simp
qed

text \<open>
  C1 as stated fails: in \<open>stale_trace\<close> request A (for \<open>a\<close>) is issued, then request B (for
  \<open>ab\<close>) while A is open; B's response is applied and the list shows B's result; then A's
  response arrives and is not discarded: the list shows A's result.
\<close>

theorem stale_suggestions_counterexample:
  "fetches (run stale_trace init) = [SuggestReq (js ''a'') False 5, SuggestReq (js ''ab'') False 5]
   \<and> suggestions (run (take 5 stale_trace) init) = [(js ''abacus'')]
   \<and> suggestions (run stale_trace init) = [(js ''apple'')]
   \<and> suggestions (run stale_trace init) \<noteq> [(js ''abacus'')]"
  by (simp add: stale_trace_def eval_defs)

text \<open>
  C9, as amended. In \<open>fetchSuggestions\<close> a completed response is applied whatever its status
  code: every body that parses to a JSON value other than \<open>null\<close> has the suggestion list
  set to its \<open>suggestions\<close> property (\<open>undefined\<close> when it has none) and the list made
  visible, also for a status that is not 2xx, and nothing is logged. The \<open>catch\<close> branch,
  which logs, clears the list and hides it, runs exactly when the fetch rejects, the body
  does not parse, or the body is \<open>null\<close>. When the property is an array of strings, the
  state of the event loop is the one with these suggestions, visible.
\<close>

theorem suggestions_status_ignored:
  "(data \<noteq> JNull \<longrightarrow>
      (\<exists>v. data_suggestions data = Value v
         \<and> fetchSuggestions_resume_raw (Response status (Some data))
             = [SetSuggestions v, SetShowSuggestions True]))
   \<and> ((\<exists>m. ConsoleError m \<in> set (fetchSuggestions_resume_raw out))
        = (out = NetworkError \<or> (\<exists>st. out = Response st None)
           \<or> (\<exists>st. out = Response st (Some JNull))))
   \<and> (out = NetworkError \<or> (\<exists>st. out = Response st None)
        \<or> (\<exists>st. out = Response st (Some JNull)) \<longrightarrow>
        fetchSuggestions_resume_raw out
          = [ConsoleError ''Error fetching suggestions:'',
             SetSuggestions (Some (JArr [])), SetShowSuggestions False])
   \<and> (pending w r \<and> fetches w ! r = SuggestReq q adv n
        \<and> data_suggestions data = Value v \<and> as_strings v = Some ss \<longrightarrow>
        suggestionsArrive_raw r (Response status (Some data)) w
          = Some (w\<lparr> suggestions := ss, showSuggestions := True, answered := r # answered w \<rparr>))"
proof -
  have applied: "data \<noteq> JNull \<longrightarrow>
      (\<exists>v. data_suggestions data = Value v
         \<and> fetchSuggestions_resume_raw (Response status (Some data))
             = [SetSuggestions v, SetShowSuggestions True])"
    using data_suggestions_Value [of data]
    by (auto simp: fetchSuggestions_resume_raw_def)
  have branch: "(\<exists>m. ConsoleError m \<in> set (fetchSuggestions_resume_raw out))
        = (out = NetworkError \<or> (\<exists>st. out = Response st None)
           \<or> (\<exists>st. out = Response st (Some JNull)))"
  proof (cases out)
    case NetworkError
    then show ?thesis by (simp add: fetchSuggestions_resume_raw_def)
  next
    case (Response st body)
    show ?thesis
    proof (cases body)
      case None
      with Response show ?thesis by (simp add: fetchSuggestions_resume_raw_def)
    next
      case (Some data)
      with Response show ?thesis
        by (cases data) (simp_all add: fetchSuggestions_resume_raw_def)
    qed
  qed
  have caught: "out = NetworkError \<or> (\<exists>st. out = Response st None)
        \<or> (\<exists>st. out = Response st (Some JNull)) \<longrightarrow>
        fetchSuggestions_resume_raw out
          = [ConsoleError ''Error fetching suggestions:'',
             SetSuggestions (Some (JArr [])), SetShowSuggestions False]"
    by (auto simp: fetchSuggestions_resume_raw_def)
  have state: "pending w r \<and> fetches w ! r = SuggestReq q adv n
        \<and> data_suggestions data = Value v \<and> as_strings v = Some ss \<longrightarrow>
        suggestionsArrive_raw r (Response status (Some data)) w
          = Some (w\<lparr> suggestions := ss, showSuggestions := True, answered := r # answered w \<rparr>)"
    by (auto simp: suggestionsArrive_raw_def fetchSuggestions_resume_raw_def)
  from applied branch caught state show ?thesis by blast
qed

text \<open>
  Witness for C9 as amended: a 404 response with the body \<open>{"detail": "Not Found"}\<close> sets
  the list to \<open>undefined\<close> and shows it; a 500 response with a body of the declared shape,
  answering the open request for \<open>a\<close>, gives the state with its suggestions; a body that
  does not parse takes the \<open>catch\<close> branch.
\<close>

theorem suggestions_status_ignored_witness:
  "JObj [(js ''detail'', JStr (js ''Not Found''))] \<noteq> JNull
   \<and> fetchSuggestions_resume_raw
        (Response 404 (Some (JObj [(js ''detail'', JStr (js ''Not Found''))])))
       = [SetSuggestions None, SetShowSuggestions True]
   \<and> pending (run [InputChange (js ''a''), Wait 1000] init) 0
   \<and> fetches (run [InputChange (js ''a''), Wait 1000] init) ! 0 = SuggestReq (js ''a'') False 5
   \<and> map_option suggestions (suggestionsArrive_raw 0
        (Response 500 (Some (JObj [(js ''query'', JStr (js ''a'')),
                                   (js ''suggestions'', JArr [JStr (js ''apple'')])])))
        (run [InputChange (js ''a''), Wait 1000] init)) = Some [js ''apple'']
   \<and> fetchSuggestions_resume_raw (Response 200 None)
       = [ConsoleError ''Error fetching suggestions:'',
          SetSuggestions (Some (JArr [])), SetShowSuggestions False]"
proof -
  let ?w = "run [InputChange (js ''a''), Wait 1000] init"
  let ?d = "JObj [(js ''detail'', JStr (js ''Not Found''))]"
  let ?g = "JObj [(js ''query'', JStr (js ''a'')), (js ''suggestions'', JArr [JStr (js ''apple'')])]"
  have f: "fetches ?w = [SuggestReq (js ''a'') False 5]" and n: "answered ?w = []"
    by (simp_all add: eval_defs)
  have p: "pending ?w 0" using f n by (simp add: pending_def)
  have r: "fetches ?w ! 0 = SuggestReq (js ''a'') False 5" using f by simp
  have nn: "?d \<noteq> JNull" by simp
  have vd: "data_suggestions ?d = Value None" by simp
  have vg: "data_suggestions ?g = Value (Some (JArr [JStr (js ''apple'')]))" by simp
  have sg: "as_strings (Some (JArr [JStr (js ''apple'')])) = Some [js ''apple'']" by simp
  from suggestions_status_ignored [of ?d 404] nn vd
  have a: "fetchSuggestions_resume_raw (Response 404 (Some ?d))
      = [SetSuggestions None, SetShowSuggestions True]"
    by auto
  from suggestions_status_ignored [of ?g 500 _ ?w 0 "js ''a''" False 5
      "Some (JArr [JStr (js ''apple'')])" "[js ''apple'']"] p r vg sg
  have b: "suggestionsArrive_raw 0 (Response 500 (Some ?g)) ?w
      = Some (?w\<lparr> suggestions := [js ''apple''], showSuggestions := True,
                   answered := 0 # answered ?w \<rparr>)"
    by blast
  from suggestions_status_ignored [of _ _ "Response 200 None"]
  have c: "fetchSuggestions_resume_raw (Response 200 None)
      = [ConsoleError ''Error fetching suggestions:'',
         SetSuggestions (Some (JArr [])), SetShowSuggestions False]"
    by blast
  from a b c p r nn show ?thesis by simp
qed

text \<open>
  C9 as stated fails: a 200 response whose body is the JSON text \<open>null\<close> parses, the access
  \<open>data.suggestions\<close> throws, and the \<open>catch\<close> branch runs although neither the fetch nor
  the parse has thrown; the body does not replace the list.
\<close>

theorem null_body_counterexample:
  "fetchSuggestions_resume_raw (Response 200 (Some JNull))
     = [ConsoleError ''Error fetching suggestions:'',
        SetSuggestions (Some (JArr [])), SetShowSuggestions False]"
  by (simp add: fetchSuggestions_resume_raw_def)

section \<open>Search responses\<close>

text \<open>
  C4. A successful response to a search request for page \<open>page\<close> and size \<open>psize\<close>: for
  page 0 its items replace \<open>searchResults\<close>; for a later page they are appended after the
  results held then, in the order received; afterwards \<open>hasMoreResults\<close> holds iff the
  number of items equals the requested size, and \<open>performSearch\<close> always requests size 10.
  In particular, on the freshly mounted page a submit answered with exactly 10 items gives
  \<open>hasMoreResults\<close>, and a load-more answered with 3 items then gives 13 results, the 3
  after the 10, and \<open>hasMoreResults\<close> false.
\<close>

theorem search_success_merges_page:
  assumes "pending w r" and "fetches w ! r = SearchReq q psize page"
  shows "searchResults (searchArrives r (Response st (Some d)) w)
           = (if page = 0 then sr_results d else searchResults w @ sr_results d)
       \<and> hasMoreResults (searchArrives r (Response st (Some d)) w) = (length (sr_results d) = psize)
       \<and> (\<not> blank qt \<longrightarrow> fetches (performSearch qt pg w) = fetches w @ [SearchReq qt 10 pg])
       \<and> (length (sr_results da) = 10 \<and> length (sr_results db) = 3 \<longrightarrow>
            hasMoreResults (run [InputChange (js ''tinkers''), KeyDown (js ''Enter''),
                 SearchArrives 0 (Response sa (Some da))] init)
          \<and> searchResults (run [InputChange (js ''tinkers''), KeyDown (js ''Enter''),
                 SearchArrives 0 (Response sa (Some da)), ClickLoadMore,
                 SearchArrives 1 (Response sb (Some db))] init) = sr_results da @ sr_results db
          \<and> length (searchResults (run [InputChange (js ''tinkers''), KeyDown (js ''Enter''),
                 SearchArrives 0 (Response sa (Some da)), ClickLoadMore,
                 SearchArrives 1 (Response sb (Some db))] init)) = 13
          \<and> \<not> hasMoreResults (run [InputChange (js ''tinkers''), KeyDown (js ''Enter''),
                 SearchArrives 0 (Response sa (Some da)), ClickLoadMore,
                 SearchArrives 1 (Response sb (Some db))] init))"
proof -
  have general: "searchResults (searchArrives r (Response st (Some d)) w)
           = (if page = 0 then sr_results d else searchResults w @ sr_results d)
       \<and> hasMoreResults (searchArrives r (Response st (Some d)) w) = (length (sr_results d) = psize)"
    using assms by (simp add: searchArrives_def performSearch_resume_def)
  have request: "\<not> blank qt \<longrightarrow>
      fetches (performSearch qt pg w) = fetches w @ [SearchReq qt 10 pg]"
    by (simp add: performSearch_def fetch_def pageSize_def)
  have scenario: "length (sr_results da) = 10 \<and> length (sr_results db) = 3 \<longrightarrow>
            hasMoreResults (run [InputChange (js ''tinkers''), KeyDown (js ''Enter''),
                 SearchArrives 0 (Response sa (Some da))] init)
          \<and> searchResults (run [InputChange (js ''tinkers''), KeyDown (js ''Enter''),
                 SearchArrives 0 (Response sa (Some da)), ClickLoadMore,
                 SearchArrives 1 (Response sb (Some db))] init) = sr_results da @ sr_results db
          \<and> length (searchResults (run [InputChange (js ''tinkers''), KeyDown (js ''Enter''),
                 SearchArrives 0 (Response sa (Some da)), ClickLoadMore,
                 SearchArrives 1 (Response sb (Some db))] init)) = 13
          \<and> \<not> hasMoreResults (run [InputChange (js ''tinkers''), KeyDown (js ''Enter''),
                 SearchArrives 0 (Response sa (Some da)), ClickLoadMore,
                 SearchArrives 1 (Response sb (Some db))] init)"
  proof
    assume len: "length (sr_results da) = 10 \<and> length (sr_results db) = 3"
    then have ne: "sr_results da \<noteq> []" by auto
    from len ne show "hasMoreResults (run [InputChange (js ''tinkers''), KeyDown (js ''Enter''),
                 SearchArrives 0 (Response sa (Some da))] init)
          \<and> searchResults (run [InputChange (js ''tinkers''), KeyDown (js ''Enter''),
                 SearchArrives 0 (Response sa (Some da)), ClickLoadMore,
                 SearchArrives 1 (Response sb (Some db))] init) = sr_results da @ sr_results db
          \<and> length (searchResults (run [InputChange (js ''tinkers''), KeyDown (js ''Enter''),
                 SearchArrives 0 (Response sa (Some da)), ClickLoadMore,
                 SearchArrives 1 (Response sb (Some db))] init)) = 13
          \<and> \<not> hasMoreResults (run [InputChange (js ''tinkers''), KeyDown (js ''Enter''),
                 SearchArrives 0 (Response sa (Some da)), ClickLoadMore,
                 SearchArrives 1 (Response sb (Some db))] init)"
      by (simp add: handler_defs init_def blank_def trim_def is_space_def js_def Let_def)
  qed
  from general request scenario show ?thesis by blast
qed

text \<open>
  Witness for C4: after the first four events of \<open>loadMore_fail_trace\<close> ten results are
  held and the request for page 1 is open; its answer of three items is appended.
\<close>

theorem search_success_merges_page_witness:
  "pending (run (take 4 loadMore_fail_trace) init) 1
   \<and> fetches (run (take 4 loadMore_fail_trace) init) ! 1 = SearchReq (js ''tinkers'') 10 1
   \<and> searchResults (searchArrives 1 (Response 200 (Some (sample_page 3)))
        (run (take 4 loadMore_fail_trace) init))
       = sr_results (sample_page 10) @ sr_results (sample_page 3)
   \<and> \<not> hasMoreResults (searchArrives 1 (Response 200 (Some (sample_page 3)))
        (run (take 4 loadMore_fail_trace) init))
   \<and> length (sr_results (sample_page 10)) = 10 \<and> length (sr_results (sample_page 3)) = 3"
proof -
  let ?w = "run (take 4 loadMore_fail_trace) init"
  have f: "fetches ?w = [SearchReq (js ''tinkers'') 10 0, SearchReq (js ''tinkers'') 10 1]"
    and n: "answered ?w = [0]"
    and s: "searchResults ?w = sr_results (sample_page 10)"
    by (simp_all add: loadMore_fail_trace_def eval_defs sample_page_def)
  have p: "pending ?w 1" using f n by (simp add: pending_def)
  have r: "fetches ?w ! 1 = SearchReq (js ''tinkers'') 10 1" using f by simp
  have l: "length (sr_results (sample_page 10)) = 10" "length (sr_results (sample_page 3)) = 3"
    by (simp_all add: sample_page_def)
  from search_success_merges_page [OF p r, of 200 "sample_page 3"] p r s l
  show ?thesis by simp
qed

text \<open>
  C2, as amended. When a search fetch fails (the fetch rejects or the body does not
  parse), whether it was issued by a submit or by a load-more, the accumulated results
  are cleared, \<open>hasMoreResults\<close> is set to false and \<open>isSearching\<close> to false, and the failure
  is written to the console; nothing else of the state changes, so no notice is shown.
\<close>

theorem search_failure_clears_results:
  assumes "pending w r" and "fetches w ! r = SearchReq q psize page"
    and "out = NetworkError \<or> out = Response st None"
  shows "searchArrives r out w =
           w\<lparr> searchResults := [], hasMoreResults := False, isSearching := False,
              console := console w @ [''Error searching:''], answered := r # answered w \<rparr>"
  using assms
  by (auto simp: searchArrives_def performSearch_resume_def console_error_def)

text \<open>
  Witness for C2 as amended: the failed load-more of \<open>loadMore_fail_trace\<close>.
\<close>

theorem search_failure_clears_results_witness:
  "pending (run (take 4 loadMore_fail_trace) init) 1
   \<and> fetches (run (take 4 loadMore_fail_trace) init) ! 1 = SearchReq (js ''tinkers'') 10 1
   \<and> searchResults (searchArrives 1 NetworkError (run (take 4 loadMore_fail_trace) init)) = []
   \<and> \<not> hasMoreResults (searchArrives 1 NetworkError (run (take 4 loadMore_fail_trace) init))
   \<and> console (searchArrives 1 NetworkError (run (take 4 loadMore_fail_trace) init))
       = [''Error searching:'']"
proof -
  let ?w = "run (take 4 loadMore_fail_trace) init"
  have f: "fetches ?w = [SearchReq (js ''tinkers'') 10 0, SearchReq (js ''tinkers'') 10 1]"
    and n: "answered ?w = [0]" and c: "console ?w = []"
    by (simp_all add: loadMore_fail_trace_def eval_defs sample_page_def)
  have p: "pending ?w 1" using f n by (simp add: pending_def)
  have r: "fetches ?w ! 1 = SearchReq (js ''tinkers'') 10 1" using f by simp
  have e: "NetworkError = (NetworkError :: SearchResponse outcome) \<or> NetworkError = Response 0 None"
    by simp
  from search_failure_clears_results [OF p r e] p r c
  show ?thesis by simp
qed

text \<open>
  C2 as stated fails: in \<open>loadMore_fail_trace\<close> ten results are held and
  \<open>hasMoreResults\<close> is true when the load-more for page 1 is issued; its fetch fails, and
  afterwards the results are empty and \<open>hasMoreResults\<close> is false.
\<close>

theorem loadMore_failure_counterexample:
  "searchResults (run (take 4 loadMore_fail_trace) init) = sr_results (sample_page 10)
   \<and> hasMoreResults (run (take 4 loadMore_fail_trace) init)
   \<and> fetches (run (take 4 loadMore_fail_trace) init) ! 1 = SearchReq (js ''tinkers'') 10 1
   \<and> searchResults (run loadMore_fail_trace init) = []
   \<and> \<not> hasMoreResults (run loadMore_fail_trace init)"
  by (simp add: loadMore_fail_trace_def eval_defs sample_page_def)




section \<open>Load more\<close>

text \<open>
  C3, as amended. \<open>loadMoreResults\<close> is a no-op, issuing no fetch and leaving the state
  unchanged, whenever \<open>searchQuery\<close> is empty or blank or the \<open>isSearching\<close> flag is set;
  otherwise, whatever \<open>hasMoreResults\<close> is, it sets \<open>isSearching\<close>, hides the
  suggestions and fetches page \<open>currentPage + 1\<close> of \<open>searchQuery\<close>, and the successful
  response to that request appends its items to the results. The test of
  \<open>hasMoreResults\<close> is in the view: the load-more button is rendered only while there
  are results and \<open>hasMoreResults\<close> is true, and is disabled while \<open>isSearching\<close>, so a
  click is a no-op otherwise.
\<close>

theorem loadMoreResults_gate:
  "(blank (searchQuery w) \<or> isSearching w \<longrightarrow> loadMoreResults w = w)
   \<and> (\<not> blank (searchQuery w) \<and> \<not> isSearching w \<longrightarrow>
        loadMoreResults w =
          fetch (SearchReq (searchQuery w) pageSize (currentPage w + 1))
            (w\<lparr> isSearching := True, showSuggestions := False \<rparr>)
        \<and> (pending (loadMoreResults w) (length (fetches w)) \<longrightarrow>
             searchResults (searchArrives (length (fetches w)) (Response st (Some d))
                 (loadMoreResults w))
               = searchResults w @ sr_results d))
   \<and> (\<not> hasMoreResults w \<or> searchResults w = [] \<or> isSearching w \<longrightarrow> step ClickLoadMore w = w)"
proof -
  have noop: "blank (searchQuery w) \<or> isSearching w \<longrightarrow> loadMoreResults w = w"
    by (auto simp: loadMoreResults_def performSearch_def)
  have issue: "\<not> blank (searchQuery w) \<and> \<not> isSearching w \<longrightarrow>
        loadMoreResults w =
          fetch (SearchReq (searchQuery w) pageSize (currentPage w + 1))
            (w\<lparr> isSearching := True, showSuggestions := False \<rparr>)"
    using blank_Nil by (auto simp: loadMoreResults_def performSearch_def fetch_def)
  have app: "\<not> blank (searchQuery w) \<and> \<not> isSearching w \<longrightarrow>
        (pending (loadMoreResults w) (length (fetches w)) \<longrightarrow>
             searchResults (searchArrives (length (fetches w)) (Response st (Some d))
                 (loadMoreResults w))
               = searchResults w @ sr_results d)"
    using blank_Nil
    by (auto simp: loadMoreResults_def performSearch_def fetch_def searchArrives_def
        performSearch_resume_def)
  have view: "\<not> hasMoreResults w \<or> searchResults w = [] \<or> isSearching w \<longrightarrow>
      step ClickLoadMore w = w"
    by (auto simp: loadMore_rendered_def)
  from noop issue app view show ?thesis by blast
qed

text \<open>
  Witness for C3 as amended: on the freshly mounted page (no search yet) both the handler
  and the click do nothing; after a full first page for \<open>tinkers\<close> the handler fetches
  page 1, and three more items arriving are appended to the ten.
\<close>

theorem loadMoreResults_gate_witness:
  "blank (searchQuery init) \<and> \<not> hasMoreResults init
   \<and> loadMoreResults init = init \<and> step ClickLoadMore init = init
   \<and> \<not> blank (searchQuery (run (take 3 loadMore_fail_trace) init))
   \<and> \<not> isSearching (run (take 3 loadMore_fail_trace) init)
   \<and> fetches (loadMoreResults (run (take 3 loadMore_fail_trace) init))
       = [SearchReq (js ''tinkers'') 10 0, SearchReq (js ''tinkers'') 10 1]
   \<and> pending (loadMoreResults (run (take 3 loadMore_fail_trace) init)) 1
   \<and> length (searchResults (searchArrives 1 (Response 200 (Some (sample_page 3)))
        (loadMoreResults (run (take 3 loadMore_fail_trace) init)))) = 13"
proof -
  let ?w = "run (take 3 loadMore_fail_trace) init"
  have i: "blank (searchQuery init)" "\<not> hasMoreResults init"
    by (simp_all add: init_def blank_Nil)
  have f: "fetches ?w = [SearchReq (js ''tinkers'') 10 0]" and n: "answered ?w = [0]"
    and q: "searchQuery ?w = (js ''tinkers'')" and s: "\<not> isSearching ?w" and c: "currentPage ?w = 0"
    and l: "length (searchResults ?w) = 10"
    by (simp_all add: loadMore_fail_trace_def eval_defs sample_page_def)
  have b: "\<not> blank (searchQuery ?w)" using q by (simp add: blank_def trim_def is_space_def js_def)
  have l3: "length (sr_results (sample_page 3)) = 3" by (simp add: sample_page_def)
  have p: "pending (loadMoreResults ?w) 1"
    using f n b s q by (simp add: loadMoreResults_def performSearch_def fetch_def pending_def)
  from loadMoreResults_gate [of init] i
  have a: "loadMoreResults init = init \<and> step ClickLoadMore init = init" by blast
  from loadMoreResults_gate [of ?w 200 "sample_page 3"] b s
  have g1: "loadMoreResults ?w =
        fetch (SearchReq (searchQuery ?w) pageSize (currentPage ?w + 1))
          (?w\<lparr> isSearching := True, showSuggestions := False \<rparr>)"
    and g2: "pending (loadMoreResults ?w) (length (fetches ?w)) \<longrightarrow>
        searchResults (searchArrives (length (fetches ?w)) (Response 200 (Some (sample_page 3)))
            (loadMoreResults ?w))
          = searchResults ?w @ sr_results (sample_page 3)"
    by blast+
  have n1: "length (fetches ?w) = 1" using f by simp
  from g2 p have g3: "searchResults (searchArrives 1 (Response 200 (Some (sample_page 3)))
            (loadMoreResults ?w))
          = searchResults ?w @ sr_results (sample_page 3)"
    unfolding n1 by blast
  have g4: "fetches (loadMoreResults ?w) = [SearchReq (js ''tinkers'') 10 0, SearchReq (js ''tinkers'') 10 1]"
    unfolding g1 using f q c by (simp add: fetch_def pageSize_def)
  have g5: "length (searchResults (searchArrives 1 (Response 200 (Some (sample_page 3)))
            (loadMoreResults ?w))) = 13"
    unfolding g3 using l l3 by simp
  from a i b s p g4 g5 show ?thesis by blast
qed

text \<open>
  C3 as stated fails twice. After \<open>short_page_trace\<close> the first page held three items,
  so \<open>hasMoreResults\<close> is false, and \<open>loadMoreResults\<close> still fetches page 1. After
  \<open>overlap_trace\<close> the search request 1 is still open, and a click on the load-more
  button fetches page 1.
\<close>

theorem loadMore_not_noop_counterexample:
  "\<not> hasMoreResults (run short_page_trace init)
     \<and> fetches (run short_page_trace init) = [SearchReq (js ''a'') 10 0]
     \<and> fetches (loadMoreResults (run short_page_trace init))
         = [SearchReq (js ''a'') 10 0, SearchReq (js ''a'') 10 1]
   \<and> pending (run overlap_trace init) 1
     \<and> fetches (run overlap_trace init) = [SearchReq (js ''a'') 10 0, SearchReq (js ''ab'') 10 0]
     \<and> fetches (step ClickLoadMore (run overlap_trace init))
         = [SearchReq (js ''a'') 10 0, SearchReq (js ''ab'') 10 0, SearchReq (js ''ab'') 10 1]"
  by (simp add: short_page_trace_def overlap_trace_def eval_defs sample_page_def)

section \<open>Summaries\<close>

text \<open>
  C5, as amended. \<open>fetchSummary\<close> sets the loading flag to true at once, before any
  response can arrive, and issues the request for the new item; it does not clear the
  summary: \<open>selectedSummary\<close> keeps whatever it held (a summary shown before stays shown)
  until a successful response replaces it. This is what a click on the summary button of
  any listed item does, unless the loading flag disables the button.
\<close>

theorem fetchSummary_keeps_summary:
  "selectedSummary (fetchSummary modId w) = selectedSummary w
   \<and> isLoadingSummary (fetchSummary modId w)
   \<and> fetches (fetchSummary modId w) = fetches w @ [SummaryReq modId]
   \<and> answered (fetchSummary modId w) = answered w
   \<and> (i < length (searchResults w) \<and> \<not> isLoadingSummary w \<longrightarrow>
        selectedSummary (step (ClickSummarize i) w) = selectedSummary w
        \<and> isLoadingSummary (step (ClickSummarize i) w)
        \<and> fetches (step (ClickSummarize i) w)
            = fetches w @ [SummaryReq (id_m (searchResults w ! i))])"
proof -
  have handler: "selectedSummary (fetchSummary modId w) = selectedSummary w
      \<and> isLoadingSummary (fetchSummary modId w)
      \<and> fetches (fetchSummary modId w) = fetches w @ [SummaryReq modId]
      \<and> answered (fetchSummary modId w) = answered w"
    by (simp add: fetchSummary_def fetch_def)
  have click: "i < length (searchResults w) \<and> \<not> isLoadingSummary w \<longrightarrow>
        selectedSummary (step (ClickSummarize i) w) = selectedSummary w
        \<and> isLoadingSummary (step (ClickSummarize i) w)
        \<and> fetches (step (ClickSummarize i) w)
            = fetches w @ [SummaryReq (id_m (searchResults w ! i))]"
    by (simp add: fetchSummary_def fetch_def)
  from handler click show ?thesis by blast
qed

text \<open>
  Witness for C5 as amended: two results are listed and no summary is loading; a click on
  the first item's button sets the loading flag and issues the request for item 0.
\<close>

theorem fetchSummary_keeps_summary_witness:
  "0 < length (searchResults (run (take 3 summarized_trace) init))
   \<and> \<not> isLoadingSummary (run (take 3 summarized_trace) init)
   \<and> selectedSummary (step (ClickSummarize 0) (run (take 3 summarized_trace) init)) = None
   \<and> isLoadingSummary (step (ClickSummarize 0) (run (take 3 summarized_trace) init))
   \<and> fetches (step (ClickSummarize 0) (run (take 3 summarized_trace) init))
       = [SearchReq (js ''tinkers'') 10 0, SummaryReq 0]"
proof -
  let ?w = "run (take 3 summarized_trace) init"
  have l: "0 < length (searchResults ?w)" and n: "\<not> isLoadingSummary ?w"
    and s: "selectedSummary ?w = None" and f: "fetches ?w = [SearchReq (js ''tinkers'') 10 0]"
    and m: "id_m (searchResults ?w ! 0) = 0"
    by (simp_all add: summarized_trace_def eval_defs sample_page_def sample_mod_def)
  from fetchSummary_keeps_summary [of 0 ?w 0] l n
  have "selectedSummary (step (ClickSummarize 0) ?w) = selectedSummary ?w
      \<and> isLoadingSummary (step (ClickSummarize 0) ?w)
      \<and> fetches (step (ClickSummarize 0) ?w)
          = fetches ?w @ [SummaryReq (id_m (searchResults ?w ! 0))]"
    by blast
  with l n s f m show ?thesis by simp
qed

text \<open>
  C5 as stated fails: after \<open>summarized_trace\<close> the summary of item 0 is shown and the
  summary buttons are enabled again; requesting the summary of item 1 sets the loading
  flag and leaves the summary of item 0 in place while the new request is open.
\<close>

theorem fetchSummary_stale_counterexample:
  "selectedSummary (run summarized_trace init) = Some sample_summary
   \<and> selectedSummary (step (ClickSummarize 1) (run summarized_trace init)) = Some sample_summary
   \<and> isLoadingSummary (step (ClickSummarize 1) (run summarized_trace init))
   \<and> fetches (step (ClickSummarize 1) (run summarized_trace init)) ! 2 = SummaryReq 1
   \<and> pending (step (ClickSummarize 1) (run summarized_trace init)) 2"
  by (simp add: summarized_trace_def eval_defs sample_page_def sample_mod_def)

text \<open>
  C6, as amended. When a summary request fails (the fetch rejects or the body does not
  parse), the loading flag is set to false and the failure is written to the console;
  \<open>selectedSummary\<close> is left as it was (no placeholder text is set), and no request or
  timer is issued, so nothing is retried.
\<close>

theorem summary_failure_only_logged:
  assumes "pending w r" and "fetches w ! r = SummaryReq m"
    and "out = NetworkError \<or> out = Response st None"
  shows "summaryArrives r out w =
           w\<lparr> isLoadingSummary := False,
              console := console w @ [''Error fetching summary:''], answered := r # answered w \<rparr>"
  using assms
  by (auto simp: summaryArrives_def fetchSummary_resume_def console_error_def)

text \<open>
  Witness for C6 as amended: the failed summary request of \<open>summary_fail_trace\<close>.
\<close>

theorem summary_failure_only_logged_witness:
  "pending (run (take 4 summary_fail_trace) init) 1
   \<and> fetches (run (take 4 summary_fail_trace) init) ! 1 = SummaryReq 0
   \<and> selectedSummary (summaryArrives 1 NetworkError (run (take 4 summary_fail_trace) init)) = None
   \<and> \<not> isLoadingSummary (summaryArrives 1 NetworkError (run (take 4 summary_fail_trace) init))
   \<and> fetches (summaryArrives 1 NetworkError (run (take 4 summary_fail_trace) init))
       = [SearchReq (js ''tinkers'') 10 0, SummaryReq 0]"
proof -
  let ?w = "run (take 4 summary_fail_trace) init"
  have f: "fetches ?w = [SearchReq (js ''tinkers'') 10 0, SummaryReq 0]"
    and n: "answered ?w = [0]" and s: "selectedSummary ?w = None"
    by (simp_all add: summary_fail_trace_def eval_defs sample_page_def sample_mod_def)
  have p: "pending ?w 1" using f n by (simp add: pending_def)
  have r: "fetches ?w ! 1 = SummaryReq 0" using f by simp
  have e: "NetworkError = (NetworkError :: SummaryResponse outcome) \<or> NetworkError = Response 0 None"
    by simp
  from summary_failure_only_logged [OF p r e] p r f s
  show ?thesis by simp
qed

text \<open>
  C6 as stated fails: in \<open>summary_fail_trace\<close> the summary request for item 0 fails, and
  afterwards \<open>selectedSummary\<close> is still empty: no placeholder summary has been set.
\<close>

theorem summary_no_placeholder_counterexample:
  "fetches (run (take 4 summary_fail_trace) init) ! 1 = SummaryReq 0
   \<and> pending (run (take 4 summary_fail_trace) init) 1
   \<and> selectedSummary (run summary_fail_trace init) = None
   \<and> \<not> isLoadingSummary (run summary_fail_trace init)"
  by (simp add: summary_fail_trace_def eval_defs sample_page_def sample_mod_def)

end
